theory Spec2Isabelle
  imports Main
begin

section \<open>JavaScript strings and values\<close>

text \<open>
  A JavaScript string is a sequence of code units. The model uses \<^typ>\<open>string\<close>, whose
  characters are the code units U+0000 to U+00FF; \<^term>\<open>length\<close> is the \<open>.length\<close> of the
  source. Values of other types only matter to \<open>sanitizeInput\<close>, which tests
  \<open>typeof input\<close>.
\<close>

datatype js_value =
    JString string
  | JNumber int
  | JBoolean bool
  | JNull
  | JUndefined

text \<open>
  White space of \<open>String.prototype.trim\<close> and of the regular-expression class \<open>\s\<close>
  among the code units of the model: TAB, LF, VT, FF, CR, SPACE and NO-BREAK SPACE.
\<close>

definition isWhiteSpace :: "char \<Rightarrow> bool" where
  "isWhiteSpace c = (c \<in> set [CHR 0x09, CHR 0x0A, CHR 0x0B, CHR 0x0C, CHR 0x0D, CHR 0x20, CHR 0xA0])"

definition trim :: "string \<Rightarrow> string" where
  "trim s = rev (dropWhile isWhiteSpace (rev (dropWhile isWhiteSpace s)))"

text \<open>\<open>s.replace(/c/g, r)\<close> for a single literal character \<open>c\<close>.\<close>

definition replaceAll :: "char \<Rightarrow> string \<Rightarrow> string \<Rightarrow> string" where
  "replaceAll c r s = concat (map (\<lambda>x. if x = c then r else [x]) s)"

text \<open>
  \<open>String.prototype.toLowerCase\<close> on the code units of the model: the letters A to Z and
  the capital letters of the Latin-1 block (U+00C0 to U+00DE without the multiplication
  sign U+00D7) move up by 32; every other code unit stays.
\<close>

definition toLowerChar :: "char \<Rightarrow> char" where
  "toLowerChar c =
     (let n = (of_char c :: nat)
      in if (65 \<le> n \<and> n \<le> 90) \<or> (192 \<le> n \<and> n \<le> 222 \<and> n \<noteq> 215)
         then char_of (n + 32) else c)"

definition toLowerCase :: "string \<Rightarrow> string" where
  "toLowerCase s = map toLowerChar s"

text \<open>\<open>s.includes(k)\<close>: \<open>k\<close> starts at some position of \<open>s\<close>.\<close>

fun includesStr :: "string \<Rightarrow> string \<Rightarrow> bool" where
  "includesStr [] k = (k = [])"
| "includesStr (c # s) k = (take (length k) (c # s) = k \<or> includesStr s k)"

subsection \<open>Regular expressions\<close>

text \<open>
  The fragment of regular expressions the server uses, with character classes as
  predicates, matched by derivatives. \<open>test\<close> is \<open>RegExp.prototype.test\<close> for a pattern
  anchored by \<open>^\<close> and \<open>$\<close> without flags: the whole input must match.
\<close>

datatype regex =
    Never
  | Empty
  | Class "char \<Rightarrow> bool"
  | Or regex regex
  | Then regex regex
  | Many regex

definition Plus :: "regex \<Rightarrow> regex" where
  "Plus r = Then r (Many r)"

fun nullable :: "regex \<Rightarrow> bool" where
  "nullable Never = False"
| "nullable Empty = True"
| "nullable (Class p) = False"
| "nullable (Or r s) = (nullable r \<or> nullable s)"
| "nullable (Then r s) = (nullable r \<and> nullable s)"
| "nullable (Many r) = True"

fun deriv :: "char \<Rightarrow> regex \<Rightarrow> regex" where
  "deriv c Never = Never"
| "deriv c Empty = Never"
| "deriv c (Class p) = (if p c then Empty else Never)"
| "deriv c (Or r s) = Or (deriv c r) (deriv c s)"
| "deriv c (Then r s) =
     (if nullable r then Or (Then (deriv c r) s) (deriv c s) else Then (deriv c r) s)"
| "deriv c (Many r) = Then (deriv c r) (Many r)"

fun test :: "regex \<Rightarrow> string \<Rightarrow> bool" where
  "test r [] = nullable r"
| "test r (c # s) = test (deriv c r) s"

text \<open>The words of a regular expression, for the proofs about \<^const>\<open>test\<close>.\<close>

inductive_set star :: "string set \<Rightarrow> string set" for L :: "string set" where
  star_empty: "[] \<in> star L"
| star_more: "u \<in> L \<Longrightarrow> v \<in> star L \<Longrightarrow> u @ v \<in> star L"

fun lang :: "regex \<Rightarrow> string set" where
  "lang Never = {}"
| "lang Empty = {[]}"
| "lang (Class p) = {[c] | c. p c}"
| "lang (Or r s) = lang r \<union> lang s"
| "lang (Then r s) = {u @ v | u v. u \<in> lang r \<and> v \<in> lang s}"
| "lang (Many r) = star (lang r)"

section \<open>Helper functions of the server\<close>

text \<open>
  \<^verbatim>\<open>
  function sanitizeInput(input) {
      if (typeof input !== 'string') return input;
      return input
          .replace(/</g, '<')
          .replace(/>/g, '>')
          .replace(/"/g, '"')
          .replace(/'/g, '&#x27;')
          .trim();
  }
  \<close>
\<close>

fun sanitizeInput :: "js_value \<Rightarrow> js_value" where
  "sanitizeInput (JString input) =
     JString (trim (replaceAll (CHR 0x27) ''&#x27;''
               (replaceAll (CHR 0x22) [CHR 0x22]
                 (replaceAll CHR ''>'' ''>''
                   (replaceAll CHR ''<'' ''<'' input)))))"
| "sanitizeInput input = input"

text \<open>
  \<^verbatim>\<open>
  function isValidEmail(email) {
      const emailRegex = /^[^\s@]+@[^\s@]+\.[^\s@]+$/;
      return emailRegex.test(email);
  }
  \<close>
  \<open>notSpaceAt\<close> is the class \<open>[^\s@]\<close>.
\<close>

definition notSpaceAt :: "char \<Rightarrow> bool" where
  "notSpaceAt c = (\<not> isWhiteSpace c \<and> c \<noteq> CHR ''@'')"

definition emailRegex :: regex where
  "emailRegex =
     Then (Plus (Class notSpaceAt))
       (Then (Class (\<lambda>c. c = CHR ''@''))
         (Then (Plus (Class notSpaceAt))
           (Then (Class (\<lambda>c. c = CHR ''.''))
             (Plus (Class notSpaceAt)))))"

definition isValidEmail :: "string \<Rightarrow> bool" where
  "isValidEmail email = test emailRegex email"

text \<open>
  Two notions for the statements about the pattern: a non-empty run of characters of the
  class \<open>[^\s@]\<close>, and the part of a string after its first \<open>@\<close>.
\<close>

definition plainPart :: "string \<Rightarrow> bool" where
  "plainPart w = (w \<noteq> [] \<and> (\<forall>c \<in> set w. notSpaceAt c))"

definition afterAt :: "string \<Rightarrow> string" where
  "afterAt s = tl (dropWhile (\<lambda>c. c \<noteq> CHR ''@'') s)"

subsection \<open>Spam check of the contact handler\<close>

text \<open>
  \<^verbatim>\<open>
  const spamKeywords = ['casino', 'lottery', 'winner', 'click here', 'free money', 'viagra', 'crypto'];
  const messageLower = message.toLowerCase();
  const containsSpam = spamKeywords.some(keyword => messageLower.includes(keyword));
  \<close>
\<close>

definition spamKeywords :: "string list" where
  "spamKeywords =
     [''casino'', ''lottery'', ''winner'', ''click here'', ''free money'', ''viagra'', ''crypto'']"

definition containsSpam :: "string \<Rightarrow> bool" where
  "containsSpam message =
     (let messageLower = toLowerCase message
      in list_ex (\<lambda>keyword. includesStr messageLower keyword) spamKeywords)"

section \<open>Configuration and the mail transporter\<close>

text \<open>
  The settings the server reads from \<open>process.env\<close>; \<open>None\<close> is an unset variable.
  \<open>env_RATE_LIMIT_MAX\<close> holds what \<open>parseInt(process.env.RATE_LIMIT_MAX)\<close> returns, with
  \<open>None\<close> for \<open>NaN\<close>.
\<close>

record env =
  SMTP_HOST :: "string option"
  SMTP_USER :: "string option"
  SMTP_PASS :: "string option"
  env_NODE_ENV :: "string option"
  env_CONTACT_EMAIL :: "string option"
  env_RATE_LIMIT_MAX :: "int option"

text \<open>A setting is falsy (\<open>!process.env.X\<close>) when it is unset or the empty string.\<close>

definition falsy :: "string option \<Rightarrow> bool" where
  "falsy v = (case v of None \<Rightarrow> True | Some s \<Rightarrow> s = [])"

text \<open>
  \<^verbatim>\<open>
  const NODE_ENV = process.env.NODE_ENV || 'development';
  const CONTACT_EMAIL = process.env.CONTACT_EMAIL || 'pradnyadange07@gmail.com';
  const RATE_LIMIT_MAX = parseInt(process.env.RATE_LIMIT_MAX) || 5;
  \<close>
  \<open>NaN\<close> and \<open>0\<close> are falsy, every other number stands.
\<close>

definition NODE_ENV :: "env \<Rightarrow> string" where
  "NODE_ENV e = (if falsy (env_NODE_ENV e) then ''development'' else the (env_NODE_ENV e))"

definition CONTACT_EMAIL :: "env \<Rightarrow> string" where
  "CONTACT_EMAIL e =
     (if falsy (env_CONTACT_EMAIL e) then ''pradnyadange07@gmail.com''
      else the (env_CONTACT_EMAIL e))"

definition RATE_LIMIT_MAX :: "env \<Rightarrow> int" where
  "RATE_LIMIT_MAX e =
     (case env_RATE_LIMIT_MAX e of None \<Rightarrow> 5 | Some n \<Rightarrow> if n = 0 then 5 else n)"

text \<open>
  The transporter is the object \<open>nodemailer.createTransport\<close> builds from the host and the
  credentials; \<open>None\<close> is the \<open>null\<close> that \<open>createTransporter\<close> returns when a required
  setting is missing. The port, the TLS flag and the timeouts do not enter any decision of
  the handlers and are left out.
\<close>

record transporter =
  host :: string
  auth_user :: string
  auth_pass :: string

definition createTransporter :: "env \<Rightarrow> transporter option" where
  "createTransporter e =
     (if falsy (SMTP_HOST e) \<or> falsy (SMTP_USER e) \<or> falsy (SMTP_PASS e) then None
      else Some \<lparr>host = the (SMTP_HOST e), auth_user = the (SMTP_USER e),
                  auth_pass = the (SMTP_PASS e)\<rparr>)"

section \<open>Rate limiting\<close>

text \<open>
  \<^verbatim>\<open>
  const contactLimiter = rateLimit({
      windowMs: 15 * 60 * 1000, // 15 minutes
      max: RATE_LIMIT_MAX, // Limit each IP to RATE_LIMIT_MAX requests per windowMs
      message: {
          success: false,
          error: 'Too many contact attempts, please try again later.',
          code: 'RATE_LIMIT_EXCEEDED'
      },
      standardHeaders: true,
      legacyHeaders: false,
      // Skip rate limiting in development
      skip: NODE_ENV === 'development' ? false : false,
  });

  const apiLimiter = rateLimit({
      windowMs: 15 * 60 * 1000,
      max: 100,
      message: {
          success: false,
          error: 'Too many requests, please try again later.',
          code: 'RATE_LIMIT_EXCEEDED'
      },
  });
  \<close>
  The two header options only add response headers and are left out. The \<open>skip\<close> option
  is kept as the source passes it: the library expects a function of the request there,
  the contact limiter passes the boolean \<open>false\<close> in either branch of the conditional,
  and the general limiter passes nothing.
\<close>

datatype skip_option =
    SkipAbsent
  | SkipFunction "string \<Rightarrow> bool"
  | SkipValue js_value

record limiter_options =
  windowMs :: nat
  max_hits :: int
  limit_error :: string
  skip :: skip_option

definition contactLimiter :: "env \<Rightarrow> limiter_options" where
  "contactLimiter e =
     \<lparr>windowMs = 15 * 60 * 1000, max_hits = RATE_LIMIT_MAX e,
      limit_error = ''Too many contact attempts, please try again later.'',
      skip = SkipValue (if NODE_ENV e = ''development'' then JBoolean False else JBoolean False)\<rparr>"

definition apiLimiter :: limiter_options where
  "apiLimiter =
     \<lparr>windowMs = 15 * 60 * 1000, max_hits = 100,
      limit_error = ''Too many requests, please try again later.'',
      skip = SkipAbsent\<rparr>"

text \<open>
  The spec's RateWindow: a count of attempts and a window start, per client address.
  Times are milliseconds.
\<close>

record rate_window =
  hits :: nat
  window_start :: nat

type_synonym rate_store = "string \<rightharpoonup> rate_window"

datatype decision = Allow | Deny

text \<open>
  Modelled from the spec: the window bookkeeping of the \<open>express-rate-limit\<close> middleware
  that \<open>rateLimit\<close> builds, which is not under src/. The spec's words: a RateWindow is
  "created on first attempt from an address; reset when the current time exceeds
  window-start + window duration; otherwise incremented", and the check denies once the
  count exceeds the cap.
\<close>

definition increment :: "limiter_options \<Rightarrow> rate_store \<Rightarrow> string \<Rightarrow> nat \<Rightarrow> rate_window" where
  "increment opts store key now =
     (case store key of
        None \<Rightarrow> \<lparr>hits = 1, window_start = now\<rparr>
      | Some w \<Rightarrow>
          if window_start w + windowMs opts < now then \<lparr>hits = 1, window_start = now\<rparr>
          else w\<lparr>hits := hits w + 1\<rparr>)"

text \<open>
  Modelled from the spec: the check of the middleware, not under src/. The spec's words:
  "check(address) -> allow | deny", with the increment "atomic with respect to the check";
  a request is denied when it takes the count of its address above the cap, and a denied
  request counts as well.
\<close>

definition rateLimit ::
  "limiter_options \<Rightarrow> rate_store \<Rightarrow> string \<Rightarrow> nat \<Rightarrow> decision \<times> rate_store" where
  "rateLimit opts store key now =
     (let w = increment opts store key now
      in (if max_hits opts < int (hits w) then Deny else Allow, store(key \<mapsto> w)))"

text \<open>
  An error that a middleware hands to the error handlers of the application: its message
  and its \<open>status\<close> property, if it has one.
\<close>

record server_error =
  error_message :: string
  error_status :: "nat option"

datatype limiter_outcome = Passed | Limited | Threw server_error

text \<open>
  Modelled from the spec: the middleware of \<open>express-rate-limit\<close>, not under src/, around
  the check above. Before it counts a request the library calls its \<open>skip\<close> option with the
  request, and lets a request pass uncounted when the call returns true. An option that is
  absent stands for a function that returns false. A value that is no function cannot be
  called: the call is a TypeError, which the middleware hands on as an error, and the
  request is neither counted nor answered by the limiter.
\<close>

definition limiterMiddleware ::
  "limiter_options \<Rightarrow> rate_store \<Rightarrow> string \<Rightarrow> nat \<Rightarrow> limiter_outcome \<times> rate_store" where
  "limiterMiddleware opts store key now =
     (let counted = (case rateLimit opts store key now of
                       (Allow, store') \<Rightarrow> (Passed, store')
                     | (Deny, store') \<Rightarrow> (Limited, store'))
      in case skip opts of
           SkipAbsent \<Rightarrow> counted
         | SkipFunction f \<Rightarrow> if f key then (Passed, store) else counted
         | SkipValue v \<Rightarrow>
             (Threw \<lparr>error_message = ''config.skip is not a function'', error_status = None\<rparr>,
              store))"

text \<open>A run of requests from one address through the check, with the time of each.\<close>

fun rateLimitAll ::
  "limiter_options \<Rightarrow> rate_store \<Rightarrow> string \<Rightarrow> nat list \<Rightarrow> decision list \<times> rate_store" where
  "rateLimitAll opts store key [] = ([], store)"
| "rateLimitAll opts store key (now # later) =
     (let (d, store') = rateLimit opts store key now;
          (ds, store'') = rateLimitAll opts store' key later
      in (d # ds, store''))"

section \<open>Validation of a submission\<close>

text \<open>
  The body of a contact request. \<open>None\<close> is a field the client did not send.
\<close>

record contact_body =
  body_name :: "string option"
  body_email :: "string option"
  body_subject :: "string option"
  body_message :: "string option"

text \<open>
  The functions of the \<open>express-validator\<close> library whose results depend on tables and
  patterns of the library. They are not under src/ and are parameters of the model.
\<close>

record validator_lib =
  isEmail :: "string \<Rightarrow> bool"
  normalizeEmail :: "string \<Rightarrow> string"
  escape :: "string \<Rightarrow> string"

text \<open>
  Modelled from the spec: the library's \<open>isEmail\<close>, not under src/. The spec's words for
  the email rule: it "matches a simple local@domain-with-dot pattern", which is the
  pattern of \<^const>\<open>isValidEmail\<close>.
\<close>

definition isEmail_spec :: "string \<Rightarrow> bool" where
  "isEmail_spec email = isValidEmail email"

text \<open>
  A validation chain as the source writes it: sanitizers and validators in order, each
  validator with the message of its \<open>withMessage\<close>.
\<close>

datatype validator = NotEmpty | IsLength nat nat | IsEmail

datatype sanitizer = Trim | Escape | NormalizeEmail

datatype chain_step = Sanitize sanitizer | Validate validator string | Optional

record validation_error =
  path :: string
  msg :: string

text \<open>
  Modelled from the spec: the validators and sanitizers of the library, not under src/,
  by what the spec's rules say of them: "required" is a non-empty value, a length rule
  bounds the number of characters, and trimming is the removal of "leading/trailing
  whitespace".
\<close>

fun runValidator :: "validator_lib \<Rightarrow> validator \<Rightarrow> string \<Rightarrow> bool" where
  "runValidator lib NotEmpty v = (v \<noteq> [])"
| "runValidator lib (IsLength lo hi) v = (lo \<le> length v \<and> length v \<le> hi)"
| "runValidator lib IsEmail v = isEmail lib v"

fun runSanitizer :: "validator_lib \<Rightarrow> sanitizer \<Rightarrow> string \<Rightarrow> string" where
  "runSanitizer lib Trim v = trim v"
| "runSanitizer lib Escape v = escape lib v"
| "runSanitizer lib NormalizeEmail v = normalizeEmail lib v"

text \<open>
  Modelled from the spec: the chain runner of \<open>express-validator\<close>, not under src/. The
  spec's words: the rules are "evaluated independently per field (not short-circuited,
  all violations collected)", each error "naming the offending field and a
  human-readable reason". A sanitizer rewrites the value the later steps see; a missing
  field is validated as the empty string, unless the chain is \<open>optional()\<close>, which skips
  a missing field.
\<close>

fun runSteps ::
  "validator_lib \<Rightarrow> string \<Rightarrow> chain_step list \<Rightarrow> string \<Rightarrow> validation_error list \<times> string" where
  "runSteps lib field [] v = ([], v)"
| "runSteps lib field (Sanitize f # steps) v = runSteps lib field steps (runSanitizer lib f v)"
| "runSteps lib field (Validate p m # steps) v =
     (let (errs, v') = runSteps lib field steps v
      in ((if runValidator lib p v then [] else [\<lparr>path = field, msg = m\<rparr>]) @ errs, v'))"
| "runSteps lib field (Optional # steps) v = runSteps lib field steps v"

text \<open>
  Modelled from the spec: the start of a chain in the library, not under src/. The spec's
  words for the subject rule: "optional; if present, length at most 200".
\<close>

definition runChain ::
  "validator_lib \<Rightarrow> string \<Rightarrow> chain_step list \<Rightarrow> string option
     \<Rightarrow> validation_error list \<times> string option" where
  "runChain lib field steps value =
     (if Optional \<in> set steps \<and> value = None then ([], None)
      else (let (errs, v) = runSteps lib field steps (case value of None \<Rightarrow> [] | Some s \<Rightarrow> s)
            in (errs, Some v)))"

text \<open>
  \<^verbatim>\<open>
  body('name').trim()
      .notEmpty().withMessage('Name is required')
      .isLength({ min: 2, max: 100 }).withMessage('Name must be between 2 and 100 characters')
      .escape(),
  body('email').trim()
      .notEmpty().withMessage('Email is required')
      .isEmail().withMessage('Please provide a valid email address')
      .normalizeEmail()
      .isLength({ max: 254 }).withMessage('Email is too long'),
  body('subject').optional().trim()
      .isLength({ max: 200 }).withMessage('Subject must be less than 200 characters')
      .escape(),
  body('message').trim()
      .notEmpty().withMessage('Message is required')
      .isLength({ min: 10, max: 5000 }).withMessage('Message must be between 10 and 5000 characters')
      .escape(),
  \<close>
\<close>

definition nameChain :: "chain_step list" where
  "nameChain =
     [Sanitize Trim,
      Validate NotEmpty ''Name is required'',
      Validate (IsLength 2 100) ''Name must be between 2 and 100 characters'',
      Sanitize Escape]"

definition emailChain :: "chain_step list" where
  "emailChain =
     [Sanitize Trim,
      Validate NotEmpty ''Email is required'',
      Validate IsEmail ''Please provide a valid email address'',
      Sanitize NormalizeEmail,
      Validate (IsLength 0 254) ''Email is too long'']"

definition subjectChain :: "chain_step list" where
  "subjectChain =
     [Optional,
      Sanitize Trim,
      Validate (IsLength 0 200) ''Subject must be less than 200 characters'',
      Sanitize Escape]"

definition messageChain :: "chain_step list" where
  "messageChain =
     [Sanitize Trim,
      Validate NotEmpty ''Message is required'',
      Validate (IsLength 10 5000) ''Message must be between 10 and 5000 characters'',
      Sanitize Escape]"

text \<open>
  The four chains run in the order of the route; the result is the list behind
  \<open>validationResult(req)\<close> and the sanitized body the handler reads.
\<close>

definition validate :: "validator_lib \<Rightarrow> contact_body \<Rightarrow> validation_error list \<times> contact_body" where
  "validate lib b =
     (let (e1, n) = runChain lib ''name'' nameChain (body_name b);
          (e2, e) = runChain lib ''email'' emailChain (body_email b);
          (e3, s) = runChain lib ''subject'' subjectChain (body_subject b);
          (e4, m) = runChain lib ''message'' messageChain (body_message b)
      in (e1 @ e2 @ e3 @ e4,
          \<lparr>body_name = n, body_email = e, body_subject = s, body_message = m\<rparr>))"

text \<open>
  The rules of the spec's Validator, to compare \<^const>\<open>validate\<close> with: each rule with
  the field it names, its reason, and whether the submission meets it. A missing field
  counts as the empty text, and every length is the length of the trimmed value.
\<close>

definition fieldText :: "string option \<Rightarrow> string" where
  "fieldText v = (case v of None \<Rightarrow> [] | Some s \<Rightarrow> s)"

definition spec_rules :: "validator_lib \<Rightarrow> contact_body \<Rightarrow> (string \<times> string \<times> bool) list" where
  "spec_rules lib b =
     (let nm = trim (fieldText (body_name b));
          em = trim (fieldText (body_email b));
          ms = trim (fieldText (body_message b))
      in [(''name'', ''Name is required'', nm \<noteq> []),
          (''name'', ''Name must be between 2 and 100 characters'',
             2 \<le> length nm \<and> length nm \<le> 100),
          (''email'', ''Email is required'', em \<noteq> []),
          (''email'', ''Please provide a valid email address'', isEmail lib em),
          (''email'', ''Email is too long'', length (normalizeEmail lib em) \<le> 254),
          (''subject'', ''Subject must be less than 200 characters'',
             (case body_subject b of None \<Rightarrow> True | Some s \<Rightarrow> length (trim s) \<le> 200)),
          (''message'', ''Message is required'', ms \<noteq> []),
          (''message'', ''Message must be between 10 and 5000 characters'',
             10 \<le> length ms \<and> length ms \<le> 5000)])"

section \<open>The API routes\<close>

text \<open>
  A message handed to \<open>transporter.sendMail\<close>: sender, recipient, reply-to and subject
  line. The \<open>text\<close> and \<open>html\<close> bodies carry the wall-clock time and the templates; no
  decision of the handler reads them and they are left out.
\<close>

record mail_options =
  from_name :: string
  from_address :: "string option"
  mail_to :: "string option"
  replyTo :: "string option"
  mail_subject :: string

text \<open>
  \<open>sendMail\<close> returns a promise. It resolves with an \<open>info\<close> object that carries the
  message identifier, or rejects with an error that may carry a \<open>code\<close>.
\<close>

record send_info =
  info_messageId :: string

record send_error =
  err_code :: "string option"
  err_message :: string

type_synonym send_outcome = "send_error + send_info"

record error_detail =
  field :: string
  detail_message :: string

record response =
  status :: nat
  success :: bool
  error :: "string option"
  code :: "string option"
  message_text :: "string option"
  messageId :: "string option"
  details :: "error_detail list"

record request =
  req_ip :: string
  req_body :: contact_body

text \<open>
  What a request does, in the order it happens: messages handed to the transporter,
  lines written to the console, and the response sent to the client.
\<close>

datatype event = SendMail mail_options | Console string | Respond response

text \<open>A value inside a template literal or after \<open>+\<close>: \<open>undefined\<close> prints its name.\<close>

definition templ :: "string option \<Rightarrow> string" where
  "templ v = (case v of None \<Rightarrow> ''undefined'' | Some s \<Rightarrow> s)"

text \<open>
  \<^verbatim>\<open>
  const mailOptions = {
      from: { name: 'Portfolio Contact Form', address: process.env.SMTP_USER },
      to: CONTACT_EMAIL,
      replyTo: email,
      subject: `Portfolio Contact: ${subject || 'New message from ' + name}`, ... };
  const autoReplyOptions = {
      from: { name: 'Pradnya Dange', address: process.env.SMTP_USER },
      to: email,
      subject: 'Thank you for contacting me!', ... };
  \<close>
\<close>

definition mailOptions :: "env \<Rightarrow> contact_body \<Rightarrow> mail_options" where
  "mailOptions e b =
     \<lparr>from_name = ''Portfolio Contact Form'',
      from_address = SMTP_USER e,
      mail_to = Some (CONTACT_EMAIL e),
      replyTo = body_email b,
      mail_subject = ''Portfolio Contact: '' @
        (if falsy (body_subject b) then ''New message from '' @ templ (body_name b)
         else templ (body_subject b))\<rparr>"

definition autoReplyOptions :: "env \<Rightarrow> contact_body \<Rightarrow> mail_options" where
  "autoReplyOptions e b =
     \<lparr>from_name = ''Pradnya Dange'',
      from_address = SMTP_USER e,
      mail_to = body_email b,
      replyTo = None,
      mail_subject = ''Thank you for contacting me!''\<rparr>"

definition failure :: "nat \<Rightarrow> string \<Rightarrow> string \<Rightarrow> response" where
  "failure st text c =
     \<lparr>status = st, success = False, error = Some text, code = Some c, message_text = None,
      messageId = None, details = []\<rparr>"

text \<open>
  The \<open>catch\<close> block of the contact handler:
  \<^verbatim>\<open>
  if (error.code === 'EAUTH') { return res.status(500).json({ ..., code: 'EMAIL_AUTH_ERROR' }); }
  if (error.code === 'ECONNECTION' || error.code === 'ETIMEDOUT') {
      return res.status(500).json({ ..., code: 'EMAIL_CONNECTION_ERROR' }); }
  res.status(500).json({ ..., code: 'INTERNAL_ERROR' });
  \<close>
\<close>

definition catchBlock :: "send_error \<Rightarrow> response" where
  "catchBlock err =
     (if err_code err = Some ''EAUTH'' then
        failure 500 ''Email authentication failed. Please contact the administrator.''
          ''EMAIL_AUTH_ERROR''
      else if err_code err = Some ''ECONNECTION'' \<or> err_code err = Some ''ETIMEDOUT'' then
        failure 500 ''Could not connect to email server. Please try again later.''
          ''EMAIL_CONNECTION_ERROR''
      else
        failure 500 ''An unexpected error occurred. Please try again later.''
          ''INTERNAL_ERROR'')"

text \<open>
  The handler of \<open>POST /api/contact\<close>, after the rate limiter. \<open>notification\<close> and
  \<open>autoReply\<close> are the outcomes of the two \<open>sendMail\<close> promises, should the handler
  create them. The handler awaits the first; the second it leaves to settle after the
  response, with a \<open>catch\<close> that writes to the console. Reading \<open>toLowerCase\<close> of a
  missing message is the TypeError the \<open>catch\<close> block receives.
\<close>

definition contactHandler ::
  "env \<Rightarrow> validator_lib \<Rightarrow> transporter option \<Rightarrow> request \<Rightarrow> send_outcome \<Rightarrow> send_outcome
     \<Rightarrow> event list" where
  "contactHandler e lib tr req notification autoReply =
     (let (errors, b) = validate lib (req_body req)
      in if errors \<noteq> [] then
           [Respond ((failure 400 ''Validation failed'' ''VALIDATION_ERROR'')
              \<lparr>details := map (\<lambda>err. \<lparr>field = path err, detail_message = msg err\<rparr>) errors\<rparr>)]
         else if tr = None then
           [Console ''Email transporter not configured'',
            Respond (failure 503
              ''Email service is not configured. Please contact the administrator.''
              ''SERVICE_UNAVAILABLE'')]
         else
           (case body_message b of
              None \<Rightarrow>
                [Console ''Error sending email'',
                 Respond (catchBlock \<lparr>err_code = None, err_message = ''TypeError''\<rparr>)]
            | Some message \<Rightarrow>
                if containsSpam message then
                  [Console (''Potential spam detected from IP: '' @ req_ip req),
                   Respond (failure 400
                     ''Your message appears to be spam. Please revise and try again.''
                     ''SPAM_DETECTED'')]
                else
                  (case notification of
                     Inl err \<Rightarrow>
                       [SendMail (mailOptions e b),
                        Console ''Error sending email'',
                        Respond (catchBlock err)]
                   | Inr info \<Rightarrow>
                       [SendMail (mailOptions e b),
                        Console (''Email sent successfully: '' @ info_messageId info),
                        SendMail (autoReplyOptions e b),
                        Respond
                          \<lparr>status = 200, success = True, error = None, code = None,
                           message_text = Some ''Your message has been sent successfully! I will get back to you soon.'',
                           messageId = Some (info_messageId info), details = []\<rparr>]
                       @ (case autoReply of
                            Inl err \<Rightarrow> [Console (''Failed to send auto-reply: '' @ err_message err)]
                          | Inr ack \<Rightarrow> []))))"

text \<open>
  Modelled from the spec: the response of the \<open>express-rate-limit\<close> middleware, not under
  src/, to a denied request. The spec's words: "on deny, the caller must surface HTTP
  status 429 with a machine-readable code"; the body is the \<open>message\<close> option of the
  source.
\<close>

definition limitExceeded :: "limiter_options \<Rightarrow> response" where
  "limitExceeded opts = failure 429 (limit_error opts) ''RATE_LIMIT_EXCEEDED''"

text \<open>
  The global error handler of the application:
  \<^verbatim>\<open>
  app.use((err, req, res, next) => {
      console.error('Server error:', err);
      if (err.message === 'Not allowed by CORS') {
          return res.status(403).json({ success: false, error: 'Origin not allowed',
                                        code: 'CORS_ERROR' });
      }
      if (err.status === 429) {
          return res.status(429).json({ success: false,
              error: 'Too many requests. Please try again later.', code: 'RATE_LIMIT_EXCEEDED' });
      }
      res.status(500).json({ success: false, error: 'An unexpected error occurred',
                             code: 'INTERNAL_ERROR' });
  });
  \<close>
\<close>

definition errorHandler :: "server_error \<Rightarrow> event list" where
  "errorHandler err =
     [Console (''Server error: '' @ error_message err),
      Respond
        (if error_message err = ''Not allowed by CORS'' then
           failure 403 ''Origin not allowed'' ''CORS_ERROR''
         else if error_status err = Some 429 then
           failure 429 ''Too many requests. Please try again later.'' ''RATE_LIMIT_EXCEEDED''
         else
           failure 500 ''An unexpected error occurred'' ''INTERNAL_ERROR'')]"

text \<open>
  \<open>app.post('/api/contact', contactLimiter, [...], async (req, res) => ...)\<close>: the limiter
  first, then the validation chains and the handler. An error of the limiter goes to the
  global error handler, and the chains and the handler do not run.
\<close>

definition contactRoute ::
  "env \<Rightarrow> validator_lib \<Rightarrow> transporter option \<Rightarrow> rate_store \<Rightarrow> nat \<Rightarrow> request
     \<Rightarrow> send_outcome \<Rightarrow> send_outcome \<Rightarrow> event list \<times> rate_store" where
  "contactRoute e lib tr store now req notification autoReply =
     (case limiterMiddleware (contactLimiter e) store (req_ip req) now of
        (Threw err, store') \<Rightarrow> (errorHandler err, store')
      | (Limited, store') \<Rightarrow> ([Respond (limitExceeded (contactLimiter e))], store')
      | (Passed, store') \<Rightarrow> (contactHandler e lib tr req notification autoReply, store'))"



text \<open>The responses and the messages of a trace.\<close>

fun responses :: "event list \<Rightarrow> response list" where
  "responses [] = []"
| "responses (Respond r # evs) = r # responses evs"
| "responses (ev # evs) = responses evs"

fun sends :: "event list \<Rightarrow> mail_options list" where
  "sends [] = []"
| "sends (SendMail m # evs) = m # sends evs"
| "sends (ev # evs) = sends evs"

text \<open>
  A run of requests through the contact route, all with the same body and from the same
  address, with the time of each: the responses in order and the store at the end.
\<close>

fun contactRouteAll ::
  "env \<Rightarrow> validator_lib \<Rightarrow> transporter option \<Rightarrow> rate_store \<Rightarrow> request \<Rightarrow> nat list
     \<Rightarrow> send_outcome \<Rightarrow> send_outcome \<Rightarrow> response list \<times> rate_store" where
  "contactRouteAll e lib tr store req [] notification autoReply = ([], store)"
| "contactRouteAll e lib tr store req (now # later) notification autoReply =
     (let (evs, store') = contactRoute e lib tr store now req notification autoReply;
          (rs, store'') = contactRouteAll e lib tr store' req later notification autoReply
      in (responses evs @ rs, store''))"

section \<open>Examples\<close>

text \<open>
  A stand-in for the library where an example needs one: the spec's email pattern, and a
  normaliser and an escaper that leave the text of the examples as it is.
\<close>

definition plainLib :: validator_lib where
  "plainLib = \<lparr>isEmail = isEmail_spec, normalizeEmail = (\<lambda>s. s), escape = (\<lambda>s. s)\<rparr>"

text \<open>A server with every setting at its default and the three SMTP settings present.\<close>

definition configured :: env where
  "configured =
     \<lparr>SMTP_HOST = Some ''smtp.example.com'', SMTP_USER = Some ''me@example.com'',
      SMTP_PASS = Some ''secret'', env_NODE_ENV = None, env_CONTACT_EMAIL = None,
      env_RATE_LIMIT_MAX = None\<rparr>"


text \<open>The submission of the spec's end-to-end example, from the address 10.0.0.1.\<close>

definition joRequest :: request where
  "joRequest =
     \<lparr>req_ip = ''10.0.0.1'',
      req_body = \<lparr>body_name = Some ''Jo'', body_email = Some ''jo@x.com'',
                  body_subject = None, body_message = Some ''1234567890''\<rparr>\<rparr>"

text \<open>A submission whose name and message are \<open>n\<close> and \<open>m\<close> letters.\<close>

definition lettersBody :: "nat \<Rightarrow> nat \<Rightarrow> contact_body" where
  "lettersBody n m =
     \<lparr>body_name = Some (replicate n CHR ''a''), body_email = Some ''a@b.co'',
      body_subject = None, body_message = Some (replicate m CHR ''a'')\<rparr>"

text \<open>
  An address followed by 250 spaces, and a subject of 200 letters followed by a space.
\<close>

definition paddedEmail :: string where
  "paddedEmail = ''jo@x.com'' @ replicate 250 CHR '' ''"

definition paddedSubject :: string where
  "paddedSubject = replicate 200 CHR ''a'' @ '' ''"

section \<open>Properties of the sanitizer\<close>

lemma replaceAll_same: "replaceAll c [c] s = s"
  by (induction s) (simp_all add: replaceAll_def)

lemma sanitizeInput_string:
  "sanitizeInput (JString s) = JString (trim (replaceAll (CHR 0x27) ''&#x27;'' s))"
  by (simp add: replaceAll_same)

lemma sanitizeInput_non_string:
  "(\<forall>s. v \<noteq> JString s) \<Longrightarrow> sanitizeInput v = v"
  by (cases v) simp_all

text \<open>
  C2. The claim: every occurrence of \<open><\<close>, \<open>>\<close>, \<open>"\<close> and \<open>'\<close> in a string is replaced by
  its HTML entity and the result is trimmed. The source replaces \<open><\<close>, \<open>>\<close> and \<open>"\<close> by
  themselves, so only the apostrophe is neutralised: the sanitizer returns the markup
  \<open><b>\<close> as it came.
\<close>

theorem sanitizeInput_keeps_markup:
  "sanitizeInput (JString ''<b>'') = JString ''<b>''"
  by (simp add: sanitizeInput_string trim_def replaceAll_def isWhiteSpace_def)

text \<open>
  C9. The claim: sanitizing never leaves a raw \<open><\<close>, \<open>>\<close>, \<open>"\<close> or \<open>'\<close>, also on text that
  was sanitized before, and \<open><script>\<close> becomes its entity sequence. The source leaves
  \<open><script>\<close> as it is, on the first pass and on the second.
\<close>

theorem sanitizeInput_script_unchanged:
  "sanitizeInput (JString ''<script>'') = JString ''<script>''
   \<and> sanitizeInput (sanitizeInput (JString ''<script>'')) = JString ''<script>''"
  by (simp add: sanitizeInput_string trim_def replaceAll_def isWhiteSpace_def)

section \<open>Properties of the email pattern\<close>

text \<open>The derivative matcher accepts exactly the words of the expression.\<close>

lemma nullable_iff: "nullable r \<longleftrightarrow> [] \<in> lang r"
  by (induction r) (auto intro: star_empty)

lemma star_Cons:
  "c # w \<in> star L \<longleftrightarrow> (\<exists>u v. w = u @ v \<and> c # u \<in> L \<and> v \<in> star L)"
proof
  assume "c # w \<in> star L"
  then show "\<exists>u v. w = u @ v \<and> c # u \<in> L \<and> v \<in> star L"
  proof (induction "c # w" arbitrary: w rule: star.induct)
    case (star_more u v)
    show ?case
    proof (cases u)
      case Nil
      with star_more show ?thesis by simp
    next
      case (Cons d u')
      with star_more.hyps show ?thesis by auto
    qed
  qed
next
  assume "\<exists>u v. w = u @ v \<and> c # u \<in> L \<and> v \<in> star L"
  then obtain u v where "w = u @ v" and "c # u \<in> L" and "v \<in> star L" by blast
  then have "(c # u) @ v \<in> star L" by (intro star_more)
  with \<open>w = u @ v\<close> show "c # w \<in> star L" by simp
qed

lemma lang_deriv: "w \<in> lang (deriv c r) \<longleftrightarrow> c # w \<in> lang r"
proof (induction r arbitrary: w)
  case (Then r s)
  show ?case
    by (auto simp add: Then nullable_iff Cons_eq_append_conv)
next
  case (Many r)
  show ?case
    by (auto simp add: Many star_Cons)
qed auto

lemma test_iff: "test r s \<longleftrightarrow> s \<in> lang r"
  by (induction s arbitrary: r) (simp_all add: nullable_iff lang_deriv)


lemma star_class: "star {[c] | c. p c} = {w. \<forall>c \<in> set w. p c}"
proof (intro set_eqI iffI)
  fix w
  assume "w \<in> star {[c] | c. p c}"
  then show "w \<in> {w. \<forall>c \<in> set w. p c}"
    by (induction rule: star.induct) auto
next
  fix w
  assume "w \<in> {w. \<forall>c \<in> set w. p c}"
  then have "\<forall>c \<in> set w. p c" by simp
  then show "w \<in> star {[c] | c. p c}"
  proof (induction w)
    case Nil
    show ?case by (rule star_empty)
  next
    case (Cons d w)
    then have "[d] \<in> {[c] | c. p c}" and "w \<in> star {[c] | c. p c}" by auto
    then have "[d] @ w \<in> star {[c] | c. p c}" by (rule star_more)
    then show ?case by simp
  qed
qed

lemma in_lang_Then: "w \<in> lang (Then r s) \<longleftrightarrow> (\<exists>u v. w = u @ v \<and> u \<in> lang r \<and> v \<in> lang s)"
  by auto

lemma in_lang_Plus_Class:
  "w \<in> lang (Plus (Class p)) \<longleftrightarrow> w \<noteq> [] \<and> (\<forall>c \<in> set w. p c)"
proof
  assume "w \<in> lang (Plus (Class p))"
  then show "w \<noteq> [] \<and> (\<forall>c \<in> set w. p c)"
    by (auto simp add: Plus_def star_class)
next
  assume good: "w \<noteq> [] \<and> (\<forall>c \<in> set w. p c)"
  then obtain d w' where w: "w = [d] @ w'" by (cases w) auto
  with good have "[d] \<in> lang (Class p)" and "w' \<in> lang (Many (Class p))"
    by (auto simp add: star_class)
  with w show "w \<in> lang (Plus (Class p))"
    unfolding Plus_def in_lang_Then by blast
qed

lemma in_lang_char: "w \<in> lang (Class (\<lambda>c. c = d)) \<longleftrightarrow> w = [d]"
  by auto

lemma isValidEmail_iff:
  "isValidEmail s \<longleftrightarrow>
     (\<exists>a b c. s = a @ [CHR ''@''] @ b @ [CHR ''.''] @ c \<and> plainPart a \<and> plainPart b \<and> plainPart c)"
proof
  assume "isValidEmail s"
  then have "s \<in> lang emailRegex"
    by (simp only: isValidEmail_def test_iff)
  then obtain a r1 where 1: "s = a @ r1" "plainPart a"
      and "r1 \<in> lang (Then (Class (\<lambda>c. c = CHR ''@''))
         (Then (Plus (Class notSpaceAt)) (Then (Class (\<lambda>c. c = CHR ''.'')) (Plus (Class notSpaceAt)))))"
    unfolding emailRegex_def in_lang_Then [of s] in_lang_Plus_Class plainPart_def by blast
  then obtain r2 where 2: "r1 = [CHR ''@''] @ r2"
      and "r2 \<in> lang (Then (Plus (Class notSpaceAt))
         (Then (Class (\<lambda>c. c = CHR ''.'')) (Plus (Class notSpaceAt))))"
    unfolding in_lang_Then [of r1] in_lang_char by blast
  then obtain b r3 where 3: "r2 = b @ r3" "plainPart b"
      and "r3 \<in> lang (Then (Class (\<lambda>c. c = CHR ''.'')) (Plus (Class notSpaceAt)))"
    unfolding in_lang_Then [of r2] in_lang_Plus_Class plainPart_def by blast
  then obtain c where 4: "r3 = [CHR ''.''] @ c" "plainPart c"
    unfolding in_lang_Then [of r3] in_lang_char in_lang_Plus_Class plainPart_def by blast
  from 1 2 3 4 have "s = a @ [CHR ''@''] @ b @ [CHR ''.''] @ c" by simp
  with 1 3 4 show "\<exists>a b c. s = a @ [CHR ''@''] @ b @ [CHR ''.''] @ c
      \<and> plainPart a \<and> plainPart b \<and> plainPart c"
    by blast
next
  assume "\<exists>a b c. s = a @ [CHR ''@''] @ b @ [CHR ''.''] @ c
      \<and> plainPart a \<and> plainPart b \<and> plainPart c"
  then obtain a b c where s: "s = a @ [CHR ''@''] @ b @ [CHR ''.''] @ c"
      and parts: "plainPart a" "plainPart b" "plainPart c"
    by blast
  from parts have "a \<in> lang (Plus (Class notSpaceAt))" "b \<in> lang (Plus (Class notSpaceAt))"
      "c \<in> lang (Plus (Class notSpaceAt))"
    by (simp_all add: in_lang_Plus_Class plainPart_def)
  moreover have "[CHR ''@''] \<in> lang (Class (\<lambda>c. c = CHR ''@''))"
      "[CHR ''.''] \<in> lang (Class (\<lambda>c. c = CHR ''.''))"
    by (simp_all only: in_lang_char)
  ultimately have "a @ [CHR ''@''] @ b @ [CHR ''.''] @ c \<in> lang emailRegex"
    unfolding emailRegex_def in_lang_Then by blast
  with s show "isValidEmail s"
    by (simp only: isValidEmail_def test_iff)
qed


text \<open>
  Trimming removes white space at the two ends and nothing else, so it keeps the number
  of \<open>@\<close> and what follows the first one.
\<close>

lemma plainPart_no_at: "plainPart w \<Longrightarrow> CHR ''@'' \<notin> set w"
  by (auto simp add: plainPart_def notSpaceAt_def)

lemma isValidEmail_shape:
  assumes "isValidEmail s"
  shows "count_list s CHR ''@'' = 1" and "CHR ''.'' \<in> set (afterAt s)"
proof -
  from assms obtain a b c where s: "s = a @ [CHR ''@''] @ b @ [CHR ''.''] @ c"
      and parts: "plainPart a" "plainPart b" "plainPart c"
    unfolding isValidEmail_iff by blast
  from parts have none: "CHR ''@'' \<notin> set a" "CHR ''@'' \<notin> set b" "CHR ''@'' \<notin> set c"
    by (simp_all add: plainPart_no_at)
  then have "count_list a CHR ''@'' = 0" "count_list b CHR ''@'' = 0" "count_list c CHR ''@'' = 0"
    by (simp_all add: count_list_0_iff)
  with s show "count_list s CHR ''@'' = 1"
    by simp
  from none have "dropWhile (\<lambda>c. c \<noteq> CHR ''@'') (a @ [CHR ''@''] @ b @ [CHR ''.''] @ c)
      = dropWhile (\<lambda>c. c \<noteq> CHR ''@'') ([CHR ''@''] @ b @ [CHR ''.''] @ c)"
    by (intro dropWhile_append2) auto
  with s have "afterAt s = b @ [CHR ''.''] @ c"
    by (simp add: afterAt_def)
  then show "CHR ''.'' \<in> set (afterAt s)"
    by simp
qed

lemma trim_decompose:
  "\<exists>lead trail. s = lead @ trim s @ trail
     \<and> (\<forall>c \<in> set lead. isWhiteSpace c) \<and> (\<forall>c \<in> set trail. isWhiteSpace c)"
proof -
  let ?lead = "takeWhile isWhiteSpace s"
  let ?rest = "dropWhile isWhiteSpace s"
  let ?trail = "rev (takeWhile isWhiteSpace (rev ?rest))"
  have "?rest = rev (takeWhile isWhiteSpace (rev ?rest) @ dropWhile isWhiteSpace (rev ?rest))"
    by (simp only: takeWhile_dropWhile_id rev_rev_ident)
  also have "\<dots> = rev (dropWhile isWhiteSpace (rev ?rest)) @ ?trail"
    by (rule rev_append)
  finally have "?rest = trim s @ ?trail"
    unfolding trim_def .
  then have "s = ?lead @ trim s @ ?trail"
    by (metis takeWhile_dropWhile_id)
  moreover have "\<forall>c \<in> set ?lead. isWhiteSpace c"
    by (auto dest: set_takeWhileD)
  moreover have "\<forall>c \<in> set ?trail. isWhiteSpace c"
    by (auto dest: set_takeWhileD)
  ultimately show ?thesis by blast
qed

lemma space_not_at: "isWhiteSpace c \<Longrightarrow> c \<noteq> CHR ''@''"
  by (auto simp add: isWhiteSpace_def)

lemma trim_shape:
  assumes "count_list (trim e) CHR ''@'' = 1" and "CHR ''.'' \<in> set (afterAt (trim e))"
  shows "count_list e CHR ''@'' = 1" and "CHR ''.'' \<in> set (afterAt e)"
proof -
  obtain lead trail where e: "e = lead @ trim e @ trail"
      and lead: "\<forall>c \<in> set lead. isWhiteSpace c" and trail: "\<forall>c \<in> set trail. isWhiteSpace c"
    using trim_decompose [of e] by blast
  from lead trail have none: "CHR ''@'' \<notin> set lead" "CHR ''@'' \<notin> set trail"
    by (auto dest: space_not_at)
  then have "count_list lead CHR ''@'' = 0" "count_list trail CHR ''@'' = 0"
    by (simp_all add: count_list_0_iff)
  with assms(1) have "count_list (lead @ trim e @ trail) CHR ''@'' = 1"
    by simp
  with e show "count_list e CHR ''@'' = 1" by simp
  from assms(1) have at: "CHR ''@'' \<in> set (trim e)"
    by (metis count_list_0_iff zero_neq_one)
  from none have "dropWhile (\<lambda>c. c \<noteq> CHR ''@'') (lead @ trim e @ trail)
      = dropWhile (\<lambda>c. c \<noteq> CHR ''@'') (trim e @ trail)"
    by (intro dropWhile_append2) auto
  also from at have "\<dots> = dropWhile (\<lambda>c. c \<noteq> CHR ''@'') (trim e) @ trail"
    by (intro dropWhile_append1) auto
  finally have "afterAt (lead @ trim e @ trail)
      = tl (dropWhile (\<lambda>c. c \<noteq> CHR ''@'') (trim e) @ trail)"
    by (simp add: afterAt_def)
  moreover from at have "dropWhile (\<lambda>c. c \<noteq> CHR ''@'') (trim e) \<noteq> []"
    by simp
  ultimately have "afterAt (lead @ trim e @ trail) = afterAt (trim e) @ trail"
    by (simp add: afterAt_def)
  with e assms(2) show "CHR ''.'' \<in> set (afterAt e)"
    by (metis Un_iff set_append)
qed


section \<open>Properties of the validation\<close>

lemma runChain_name:
  "fst (runChain lib ''name'' nameChain v) =
     (if trim (fieldText v) \<noteq> [] then [] else [\<lparr>path = ''name'', msg = ''Name is required''\<rparr>])
     @ (if 2 \<le> length (trim (fieldText v)) \<and> length (trim (fieldText v)) \<le> 100 then []
        else [\<lparr>path = ''name'', msg = ''Name must be between 2 and 100 characters''\<rparr>])"
  by (simp add: runChain_def nameChain_def fieldText_def split: option.splits)

lemma runChain_email:
  "fst (runChain lib ''email'' emailChain v) =
     (if trim (fieldText v) \<noteq> [] then [] else [\<lparr>path = ''email'', msg = ''Email is required''\<rparr>])
     @ (if isEmail lib (trim (fieldText v)) then []
        else [\<lparr>path = ''email'', msg = ''Please provide a valid email address''\<rparr>])
     @ (if length (normalizeEmail lib (trim (fieldText v))) \<le> 254 then []
        else [\<lparr>path = ''email'', msg = ''Email is too long''\<rparr>])"
  by (simp add: runChain_def emailChain_def fieldText_def split: option.splits)

lemma runChain_subject:
  "fst (runChain lib ''subject'' subjectChain v) =
     (if (case v of None \<Rightarrow> True | Some s \<Rightarrow> length (trim s) \<le> 200) then []
      else [\<lparr>path = ''subject'', msg = ''Subject must be less than 200 characters''\<rparr>])"
  by (simp add: runChain_def subjectChain_def split: option.splits)

lemma runChain_message:
  "fst (runChain lib ''message'' messageChain v) =
     (if trim (fieldText v) \<noteq> [] then [] else [\<lparr>path = ''message'', msg = ''Message is required''\<rparr>])
     @ (if 10 \<le> length (trim (fieldText v)) \<and> length (trim (fieldText v)) \<le> 5000 then []
        else [\<lparr>path = ''message'', msg = ''Message must be between 10 and 5000 characters''\<rparr>])"
  by (simp add: runChain_def messageChain_def fieldText_def split: option.splits)

lemma fst_validate:
  "fst (validate lib b) =
     fst (runChain lib ''name'' nameChain (body_name b))
     @ fst (runChain lib ''email'' emailChain (body_email b))
     @ fst (runChain lib ''subject'' subjectChain (body_subject b))
     @ fst (runChain lib ''message'' messageChain (body_message b))"
  by (simp add: validate_def split_beta)

lemma validate_spec_rules:
  "fst (validate lib b) = [\<lparr>path = f, msg = m\<rparr>. (f, m, ok) \<leftarrow> spec_rules lib b, \<not> ok]"
  by (simp add: fst_validate runChain_name runChain_email runChain_subject runChain_message
        spec_rules_def Let_def)


lemma dropWhile_id: "s = [] \<or> \<not> P (hd s) \<Longrightarrow> dropWhile P s = s"
  by (cases s) auto

lemma trim_append_spaces:
  assumes "s \<noteq> []" and "\<not> isWhiteSpace (hd s)" and "\<not> isWhiteSpace (last s)"
    and "\<forall>c \<in> set w. isWhiteSpace c"
  shows "trim (s @ w) = s"
proof -
  from assms have front: "dropWhile isWhiteSpace (s @ w) = s @ w"
    by (intro dropWhile_id) simp
  from assms have "dropWhile isWhiteSpace (rev w @ rev s) = dropWhile isWhiteSpace (rev s)"
    by (intro dropWhile_append2) simp
  also from assms have "\<dots> = rev s"
    by (intro dropWhile_id) (simp add: hd_rev)
  finally show ?thesis
    by (simp add: trim_def front)
qed

lemma trim_id:
  "s \<noteq> [] \<Longrightarrow> \<not> isWhiteSpace (hd s) \<Longrightarrow> \<not> isWhiteSpace (last s) \<Longrightarrow> trim s = s"
  using trim_append_spaces [of s "[]"] by simp

lemma trim_replicate_a: "0 < n \<Longrightarrow> trim (replicate n CHR ''a'') = replicate n CHR ''a''"
  by (rule trim_id) (simp_all add: isWhiteSpace_def)

lemma trim_plain: "trim ''Jo'' = ''Jo''" "trim ''jo@x.com'' = ''jo@x.com''" "trim ''1234567890'' = ''1234567890''"
  by (simp_all add: trim_def isWhiteSpace_def)

lemma jo_email: "isEmail_spec ''jo@x.com''"
  by (simp add: isEmail_spec_def isValidEmail_def emailRegex_def Plus_def notSpaceAt_def isWhiteSpace_def)

lemma ab_email: "isEmail_spec ''a@b.co''"
  by (simp add: isEmail_spec_def isValidEmail_def emailRegex_def Plus_def notSpaceAt_def isWhiteSpace_def)

lemma trim_ab: "trim ''a@b.co'' = ''a@b.co''"
  by (simp add: trim_def isWhiteSpace_def)

lemma spec_rules_lettersBody:
  "0 < n \<Longrightarrow> 0 < m \<Longrightarrow>
   [\<lparr>path = f, msg = t\<rparr>. (f, t, ok) \<leftarrow> spec_rules plainLib (lettersBody n m), \<not> ok]
   = (if 2 \<le> n \<and> n \<le> 100 then []
      else [\<lparr>path = ''name'', msg = ''Name must be between 2 and 100 characters''\<rparr>])
     @ (if 10 \<le> m \<and> m \<le> 5000 then []
        else [\<lparr>path = ''message'', msg = ''Message must be between 10 and 5000 characters''\<rparr>])"
  by (simp add: spec_rules_def lettersBody_def fieldText_def trim_replicate_a trim_ab ab_email
        plainLib_def)

text \<open>
  C4, as amended. The error list of the validation is the list of the violated rules, one
  error per violated rule, in the order of the rules and each with the field of its rule:
  nothing stops at the first violation. It is empty exactly when the trimmed name has a
  length in [2,100], the trimmed email is non-empty, is accepted by \<open>isEmail\<close> and has a
  normalised form of length at most 254, the subject is absent or has a trimmed length of
  at most 200, and the trimmed message has a length in [10,5000]. There is no error for
  the name exactly when its trimmed length is in [2,100] (2 and 100 pass, 1 and 101
  fail), and none for the message exactly when its trimmed length is in [10,5000] (10 and
  5000 pass, 9 and 5001 fail).
\<close>

theorem validate_rules:
  "fst (validate lib b) = [\<lparr>path = f, msg = m\<rparr>. (f, m, ok) \<leftarrow> spec_rules lib b, \<not> ok]
   \<and> (fst (validate lib b) = [] \<longleftrightarrow>
         2 \<le> length (trim (fieldText (body_name b)))
         \<and> length (trim (fieldText (body_name b))) \<le> 100
         \<and> trim (fieldText (body_email b)) \<noteq> []
         \<and> isEmail lib (trim (fieldText (body_email b)))
         \<and> length (normalizeEmail lib (trim (fieldText (body_email b)))) \<le> 254
         \<and> (body_subject b = None \<or> length (trim (fieldText (body_subject b))) \<le> 200)
         \<and> 10 \<le> length (trim (fieldText (body_message b)))
         \<and> length (trim (fieldText (body_message b))) \<le> 5000)
   \<and> ((\<forall>er \<in> set (fst (validate lib b)). path er \<noteq> ''name'') \<longleftrightarrow>
         2 \<le> length (trim (fieldText (body_name b)))
         \<and> length (trim (fieldText (body_name b))) \<le> 100)
   \<and> ((\<forall>er \<in> set (fst (validate lib b)). path er \<noteq> ''message'') \<longleftrightarrow>
         10 \<le> length (trim (fieldText (body_message b)))
         \<and> length (trim (fieldText (body_message b))) \<le> 5000)"
proof (intro conjI)
  show "fst (validate lib b) = [\<lparr>path = f, msg = m\<rparr>. (f, m, ok) \<leftarrow> spec_rules lib b, \<not> ok]"
    by (rule validate_spec_rules)
  show "fst (validate lib b) = [] \<longleftrightarrow>
         2 \<le> length (trim (fieldText (body_name b)))
         \<and> length (trim (fieldText (body_name b))) \<le> 100
         \<and> trim (fieldText (body_email b)) \<noteq> []
         \<and> isEmail lib (trim (fieldText (body_email b)))
         \<and> length (normalizeEmail lib (trim (fieldText (body_email b)))) \<le> 254
         \<and> (body_subject b = None \<or> length (trim (fieldText (body_subject b))) \<le> 200)
         \<and> 10 \<le> length (trim (fieldText (body_message b)))
         \<and> length (trim (fieldText (body_message b))) \<le> 5000"
    by (cases "body_subject b")
       (auto simp add: fst_validate runChain_name runChain_email runChain_subject
          runChain_message fieldText_def)
  show "(\<forall>er \<in> set (fst (validate lib b)). path er \<noteq> ''name'') \<longleftrightarrow>
         2 \<le> length (trim (fieldText (body_name b)))
         \<and> length (trim (fieldText (body_name b))) \<le> 100"
    by (auto simp add: fst_validate runChain_name runChain_email runChain_subject
          runChain_message)
  show "(\<forall>er \<in> set (fst (validate lib b)). path er \<noteq> ''message'') \<longleftrightarrow>
         10 \<le> length (trim (fieldText (body_message b)))
         \<and> length (trim (fieldText (body_message b))) \<le> 5000"
    by (auto simp add: fst_validate runChain_name runChain_email runChain_subject
          runChain_message)
qed


theorem validate_rules_witness:
  "fst (validate plainLib (lettersBody 2 10)) = []
   \<and> fst (validate plainLib (lettersBody 100 5000)) = []
   \<and> fst (validate plainLib (lettersBody 1 9))
       = [\<lparr>path = ''name'', msg = ''Name must be between 2 and 100 characters''\<rparr>,
          \<lparr>path = ''message'', msg = ''Message must be between 10 and 5000 characters''\<rparr>]
   \<and> fst (validate plainLib (lettersBody 101 5001))
       = [\<lparr>path = ''name'', msg = ''Name must be between 2 and 100 characters''\<rparr>,
          \<lparr>path = ''message'', msg = ''Message must be between 10 and 5000 characters''\<rparr>]"
  using validate_rules [of plainLib "lettersBody 2 10", THEN conjunct1]
    validate_rules [of plainLib "lettersBody 100 5000", THEN conjunct1]
    validate_rules [of plainLib "lettersBody 1 9", THEN conjunct1]
    validate_rules [of plainLib "lettersBody 101 5001", THEN conjunct1]
  by (simp only: spec_rules_lettersBody) simp

text \<open>
  The claim as it stands measures the subject and the email as they were sent. A subject
  of 201 characters and an email of 258 characters pass when the surplus is white space
  at an end, which the chains trim before they measure.
\<close>

theorem validate_trimmed_counterexample:
  "fst (validate plainLib
      \<lparr>body_name = Some ''Jo'', body_email = Some paddedEmail,
       body_subject = Some paddedSubject, body_message = Some ''1234567890''\<rparr>) = []
   \<and> length paddedSubject = 201 \<and> length paddedEmail = 258"
proof -
  have subject: "trim paddedSubject = replicate 200 CHR ''a''"
    unfolding paddedSubject_def by (rule trim_append_spaces) (simp_all add: isWhiteSpace_def)
  have email: "trim paddedEmail = ''jo@x.com''"
    unfolding paddedEmail_def by (rule trim_append_spaces) (simp_all add: isWhiteSpace_def)
  have lengths: "length paddedSubject = 201 \<and> length paddedEmail = 258"
    by (simp add: paddedSubject_def paddedEmail_def)
  have "fst (validate plainLib
      \<lparr>body_name = Some ''Jo'', body_email = Some paddedEmail,
       body_subject = Some paddedSubject, body_message = Some ''1234567890''\<rparr>) = []"
    by (simp add: fst_validate runChain_name runChain_email runChain_subject runChain_message
          fieldText_def subject email trim_plain jo_email plainLib_def)
  with lengths show ?thesis by simp
qed


text \<open>
  C8. With the library's \<open>isEmail\<close> taken as the spec's pattern: for every email string that
  does not hold exactly one \<open>@\<close>, or holds no \<open>.\<close> after the \<open>@\<close>, the validation reports the
  error of the email rule, whatever the other fields are; and for the address \<open>a@b.co\<close> it
  reports no error for the email field, provided the normalised address is not longer
  than 254 characters.
\<close>

theorem email_rule_pattern:
  "(count_list e CHR ''@'' \<noteq> 1 \<or> CHR ''.'' \<notin> set (afterAt e) \<longrightarrow>
      \<lparr>path = ''email'', msg = ''Please provide a valid email address''\<rparr>
        \<in> set (fst (validate (lib\<lparr>isEmail := isEmail_spec\<rparr>) (b\<lparr>body_email := Some e\<rparr>))))
   \<and> (length (normalizeEmail lib ''a@b.co'') \<le> 254 \<longrightarrow>
      (\<forall>er \<in> set (fst (validate (lib\<lparr>isEmail := isEmail_spec\<rparr>)
                          (b\<lparr>body_email := Some ''a@b.co''\<rparr>))). path er \<noteq> ''email''))"
proof (intro conjI impI)
  assume odd: "count_list e CHR ''@'' \<noteq> 1 \<or> CHR ''.'' \<notin> set (afterAt e)"
  have "\<not> isEmail_spec (trim e)"
  proof
    assume "isEmail_spec (trim e)"
    then have "isValidEmail (trim e)"
      by (simp only: isEmail_spec_def)
    then have "count_list (trim e) CHR ''@'' = 1" and "CHR ''.'' \<in> set (afterAt (trim e))"
      by (rule isValidEmail_shape)+
    then have "count_list e CHR ''@'' = 1" and "CHR ''.'' \<in> set (afterAt e)"
      by (rule trim_shape)+
    with odd show False by blast
  qed
  then show "\<lparr>path = ''email'', msg = ''Please provide a valid email address''\<rparr>
        \<in> set (fst (validate (lib\<lparr>isEmail := isEmail_spec\<rparr>) (b\<lparr>body_email := Some e\<rparr>)))"
    by (simp add: fst_validate runChain_email fieldText_def)
next
  assume "length (normalizeEmail lib ''a@b.co'') \<le> 254"
  then have "fst (runChain (lib\<lparr>isEmail := isEmail_spec\<rparr>) ''email'' emailChain (Some ''a@b.co'')) = []"
    by (simp add: runChain_email fieldText_def trim_ab ab_email)
  then show "\<forall>er \<in> set (fst (validate (lib\<lparr>isEmail := isEmail_spec\<rparr>)
                          (b\<lparr>body_email := Some ''a@b.co''\<rparr>))). path er \<noteq> ''email''"
    by (auto simp add: fst_validate runChain_name runChain_subject runChain_message)
qed

theorem email_rule_pattern_witness:
  "\<lparr>path = ''email'', msg = ''Please provide a valid email address''\<rparr>
     \<in> set (fst (validate (plainLib\<lparr>isEmail := isEmail_spec\<rparr>)
                ((req_body joRequest)\<lparr>body_email := Some ''a@@b.co''\<rparr>)))
   \<and> \<lparr>path = ''email'', msg = ''Please provide a valid email address''\<rparr>
     \<in> set (fst (validate (plainLib\<lparr>isEmail := isEmail_spec\<rparr>)
                ((req_body joRequest)\<lparr>body_email := Some ''a@bco''\<rparr>)))
   \<and> filter (\<lambda>er. path er = ''email'')
        (fst (validate (plainLib\<lparr>isEmail := isEmail_spec\<rparr>)
                ((req_body joRequest)\<lparr>body_email := Some ''a@b.co''\<rparr>))) = []"
proof -
  have two: "count_list ''a@@b.co'' CHR ''@'' \<noteq> 1 \<or> CHR ''.'' \<notin> set (afterAt ''a@@b.co'')"
    by simp
  have nodot: "count_list ''a@bco'' CHR ''@'' \<noteq> 1 \<or> CHR ''.'' \<notin> set (afterAt ''a@bco'')"
    by (simp add: afterAt_def)
  have short: "length (normalizeEmail plainLib ''a@b.co'') \<le> 254"
    by (simp add: plainLib_def)
  from email_rule_pattern [of "''a@@b.co''" plainLib "req_body joRequest", THEN conjunct1, rule_format, OF two]
    email_rule_pattern [of "''a@bco''" plainLib "req_body joRequest", THEN conjunct1, rule_format, OF nodot]
    email_rule_pattern [of "''a@b.co''" plainLib "req_body joRequest", THEN conjunct2, rule_format, OF short]
  show ?thesis
    by (simp only: filter_empty_conv) blast
qed


section \<open>Properties of the spam check\<close>

lemma take_is_prefix: "take (length k) s = k \<longleftrightarrow> (\<exists>post. s = k @ post)"
proof
  assume "take (length k) s = k"
  then have "s = k @ drop (length k) s"
    by (metis append_take_drop_id)
  then show "\<exists>post. s = k @ post" ..
next
  assume "\<exists>post. s = k @ post"
  then show "take (length k) s = k" by auto
qed

lemma includesStr_iff: "includesStr s k \<longleftrightarrow> (\<exists>pre post. s = pre @ k @ post)"
proof (induction s)
  case Nil
  show ?case by simp
next
  case (Cons c s)
  have "(\<exists>pre post. c # s = pre @ k @ post)
          \<longleftrightarrow> (\<exists>post. c # s = k @ post) \<or> (\<exists>pre post. s = pre @ k @ post)"
  proof
    assume "\<exists>pre post. c # s = pre @ k @ post"
    then obtain pre post where split: "c # s = pre @ k @ post" by blast
    show "(\<exists>post. c # s = k @ post) \<or> (\<exists>pre post. s = pre @ k @ post)"
    proof (cases pre)
      case Nil
      with split show ?thesis by auto
    next
      case (Cons p pre')
      with split have "s = pre' @ k @ post" by simp
      then show ?thesis by blast
    qed
  next
    assume "(\<exists>post. c # s = k @ post) \<or> (\<exists>pre post. s = pre @ k @ post)"
    then show "\<exists>pre post. c # s = pre @ k @ post"
    proof
      assume "\<exists>post. c # s = k @ post"
      then obtain post where "c # s = [] @ k @ post" by auto
      then show ?thesis by blast
    next
      assume "\<exists>pre post. s = pre @ k @ post"
      then obtain pre post where "c # s = (c # pre) @ k @ post" by auto
      then show ?thesis by blast
    qed
  qed
  with Cons.IH show ?case
    by (simp only: includesStr.simps take_is_prefix)
qed

lemma toLowerCase_append: "toLowerCase (a @ b) = toLowerCase a @ toLowerCase b"
  by (simp add: toLowerCase_def)

lemma containsSpam_iff:
  "containsSpam m \<longleftrightarrow> (\<exists>k \<in> set spamKeywords. \<exists>pre post. toLowerCase m = pre @ k @ post)"
  by (simp only: containsSpam_def Let_def list_ex_iff includesStr_iff)

lemma set_spamKeywords:
  "set spamKeywords =
     {''casino'', ''lottery'', ''winner'', ''click here'', ''free money'', ''viagra'', ''crypto''}"
  by (simp add: spamKeywords_def)

lemma viagra_keyword: "''viagra'' \<in> set spamKeywords"
  by (simp add: spamKeywords_def)

text \<open>
  C5. The spam check is true exactly when the lower-cased message has one of the seven
  keywords casino, lottery, winner, click here, free money, viagra, crypto as a substring,
  at any position and next to any characters. So a message that holds the word viagra in
  any letter case, with any text before and after it, is flagged, and a message whose
  lower-cased text holds none of the keywords is not.
\<close>

theorem containsSpam_substring:
  "(containsSpam m \<longleftrightarrow>
     (\<exists>k \<in> {''casino'', ''lottery'', ''winner'', ''click here'', ''free money'', ''viagra'',
              ''crypto''}. \<exists>pre post. toLowerCase m = pre @ k @ post))
   \<and> (toLowerCase v = ''viagra'' \<longrightarrow> containsSpam (before @ v @ after))"
proof
  show "containsSpam m \<longleftrightarrow>
     (\<exists>k \<in> {''casino'', ''lottery'', ''winner'', ''click here'', ''free money'', ''viagra'',
              ''crypto''}. \<exists>pre post. toLowerCase m = pre @ k @ post)"
    by (simp only: containsSpam_iff set_spamKeywords)
next
  show "toLowerCase v = ''viagra'' \<longrightarrow> containsSpam (before @ v @ after)"
  proof
    assume v: "toLowerCase v = ''viagra''"
    have "toLowerCase (before @ v @ after) = toLowerCase before @ ''viagra'' @ toLowerCase after"
      by (simp only: toLowerCase_append v)
    then have "\<exists>pre post. toLowerCase (before @ v @ after) = pre @ ''viagra'' @ post"
      by (intro exI)
    with viagra_keyword show "containsSpam (before @ v @ after)"
      by (simp only: containsSpam_iff) (rule bexI)
  qed
qed

theorem containsSpam_substring_witness:
  "containsSpam (''Cheap '' @ ''ViAgRa'' @ ''4u'') \<and> \<not> containsSpam ''Hello, I like your portfolio.''"
proof -
  have v: "toLowerCase ''ViAgRa'' = ''viagra''" by code_simp
  have clean: "\<not> containsSpam ''Hello, I like your portfolio.''" by code_simp
  from containsSpam_substring [of "''Cheap ''" "''ViAgRa''" "''Cheap ''" "''4u''",
      THEN conjunct2, rule_format, OF v] clean
  show ?thesis by (intro conjI)
qed


section \<open>Properties of the contact handler\<close>

lemma catchBlock_status: "status (catchBlock err) = 500 \<and> \<not> success (catchBlock err)"
  by (simp add: catchBlock_def failure_def)

lemma catchBlock_code:
  "code (catchBlock err) =
     Some (if err_code err = Some ''EAUTH'' then ''EMAIL_AUTH_ERROR''
           else if err_code err = Some ''ECONNECTION'' \<or> err_code err = Some ''ETIMEDOUT''
                then ''EMAIL_CONNECTION_ERROR''
           else ''INTERNAL_ERROR'')"
  by (simp add: catchBlock_def failure_def)

lemma contactHandler_cases:
  "contactHandler e lib tr req n a =
     (let b = snd (validate lib (req_body req)); errors = fst (validate lib (req_body req))
      in if errors \<noteq> [] then
           [Respond ((failure 400 ''Validation failed'' ''VALIDATION_ERROR'')
              \<lparr>details := map (\<lambda>err. \<lparr>field = path err, detail_message = msg err\<rparr>) errors\<rparr>)]
         else if tr = None then
           [Console ''Email transporter not configured'',
            Respond (failure 503
              ''Email service is not configured. Please contact the administrator.''
              ''SERVICE_UNAVAILABLE'')]
         else
           (case body_message b of
              None \<Rightarrow>
                [Console ''Error sending email'',
                 Respond (catchBlock \<lparr>err_code = None, err_message = ''TypeError''\<rparr>)]
            | Some m \<Rightarrow>
                if containsSpam m then
                  [Console (''Potential spam detected from IP: '' @ req_ip req),
                   Respond (failure 400
                     ''Your message appears to be spam. Please revise and try again.''
                     ''SPAM_DETECTED'')]
                else
                  (case n of
                     Inl err \<Rightarrow>
                       [SendMail (mailOptions e b),
                        Console ''Error sending email'',
                        Respond (catchBlock err)]
                   | Inr info \<Rightarrow>
                       [SendMail (mailOptions e b),
                        Console (''Email sent successfully: '' @ info_messageId info),
                        SendMail (autoReplyOptions e b),
                        Respond
                          \<lparr>status = 200, success = True, error = None, code = None,
                           message_text = Some ''Your message has been sent successfully! I will get back to you soon.'',
                           messageId = Some (info_messageId info), details = []\<rparr>]
                       @ (case a of
                            Inl err \<Rightarrow> [Console (''Failed to send auto-reply: '' @ err_message err)]
                          | Inr ack \<Rightarrow> []))))"
  by (cases "validate lib (req_body req)") (simp add: contactHandler_def Let_def split: option.splits sum.splits)

lemma sends_contactHandler:
  "sends (contactHandler e lib tr req n a) =
     (let b = snd (validate lib (req_body req))
      in if fst (validate lib (req_body req)) = [] \<and> tr \<noteq> None
            \<and> (\<exists>m. body_message b = Some m \<and> \<not> containsSpam m)
         then (case n of Inl err \<Rightarrow> [mailOptions e b]
                | Inr info \<Rightarrow> [mailOptions e b, autoReplyOptions e b])
         else [])"
  by (auto simp add: contactHandler_cases Let_def split: option.splits sum.splits)

lemma responses_contactHandler_failed:
  "sends (contactHandler e lib tr req (Inl err) a) \<noteq> [] \<Longrightarrow>
   responses (contactHandler e lib tr req (Inl err) a) = [catchBlock err]"
  by (auto simp add: contactHandler_cases Let_def split: option.splits sum.splits if_splits)

lemma responses_contactHandler_autoReply:
  "responses (contactHandler e lib tr req n a) = responses (contactHandler e lib tr req n a')"
  by (auto simp add: contactHandler_cases Let_def split: option.splits sum.splits if_splits)

lemma mailOptions_not_autoReply: "mailOptions e b \<noteq> autoReplyOptions e' b'"
proof
  assume "mailOptions e b = autoReplyOptions e' b'"
  then have "mail_subject (mailOptions e b) = mail_subject (autoReplyOptions e' b')"
    by simp
  then show False
    by (simp add: mailOptions_def autoReplyOptions_def)
qed

subsection \<open>Facts about the examples\<close>

lemma jo_validate:
  "validate plainLib (req_body joRequest) =
     ([], \<lparr>body_name = Some ''Jo'', body_email = Some ''jo@x.com'', body_subject = None,
           body_message = Some ''1234567890''\<rparr>)"
  by (simp add: validate_def runChain_def nameChain_def emailChain_def subjectChain_def
        messageChain_def joRequest_def plainLib_def trim_plain jo_email)

lemma jo_no_spam: "\<not> containsSpam ''1234567890''"
  by code_simp

lemma configured_transporter: "createTransporter configured \<noteq> None"
  by (simp add: createTransporter_def configured_def falsy_def)


lemma jo_trace:
  "contactHandler configured plainLib (createTransporter configured) joRequest
     (Inr \<lparr>info_messageId = ''<1@x>''\<rparr>) (Inl \<lparr>err_code = None, err_message = ''boom''\<rparr>)
   = [SendMail (mailOptions configured (snd (validate plainLib (req_body joRequest)))),
      Console ''Email sent successfully: <1@x>'']
     @ SendMail (autoReplyOptions configured (snd (validate plainLib (req_body joRequest))))
     # [Respond \<lparr>status = 200, success = True, error = None, code = None,
           message_text = Some ''Your message has been sent successfully! I will get back to you soon.'',
           messageId = Some ''<1@x>'', details = []\<rparr>,
        Console ''Failed to send auto-reply: boom'']"
  using configured_transporter
  by (auto simp add: contactHandler_cases Let_def jo_validate jo_no_spam)

lemma jo_failed_sends:
  "sends (contactHandler configured plainLib (createTransporter configured) joRequest
      (Inl \<lparr>err_code = Some ''ETIMEDOUT'', err_message = ''timeout''\<rparr>) a) \<noteq> []"
  by (simp add: sends_contactHandler jo_validate jo_no_spam configured_transporter)

subsection \<open>Failure of the notification\<close>

text \<open>
  C6. When the handler has handed the notification to the transporter and the send failed
  with the error \<open>err\<close>, the handler answers once, with status 500, and the code is
  \<open>EMAIL_AUTH_ERROR\<close> for the error code \<open>EAUTH\<close>, \<open>EMAIL_CONNECTION_ERROR\<close> for
  \<open>ECONNECTION\<close> and \<open>ETIMEDOUT\<close>, and \<open>INTERNAL_ERROR\<close> for every other error; no other
  status or code comes out of a failed notification.
\<close>

theorem notification_failure_code:
  assumes "sends (contactHandler e lib tr req (Inl err) a) \<noteq> []"
  shows "\<exists>r. responses (contactHandler e lib tr req (Inl err) a) = [r]
           \<and> status r = 500 \<and> \<not> success r
           \<and> code r = Some (if err_code err = Some ''EAUTH'' then ''EMAIL_AUTH_ERROR''
                             else if err_code err = Some ''ECONNECTION''
                                     \<or> err_code err = Some ''ETIMEDOUT''
                                  then ''EMAIL_CONNECTION_ERROR''
                             else ''INTERNAL_ERROR'')"
proof -
  have "responses (contactHandler e lib tr req (Inl err) a) = [catchBlock err]"
    using assms by (rule responses_contactHandler_failed)
  then show ?thesis
    using catchBlock_status [of err] catchBlock_code [of err] by simp
qed

theorem notification_failure_code_witness:
  "\<exists>r. responses (contactHandler configured plainLib (createTransporter configured) joRequest
      (Inl \<lparr>err_code = Some ''ETIMEDOUT'', err_message = ''timeout''\<rparr>)
      (Inr \<lparr>info_messageId = []\<rparr>)) = [r]
     \<and> status r = 500 \<and> code r = Some ''EMAIL_CONNECTION_ERROR''"
  using notification_failure_code [OF jo_failed_sends] by auto

subsection \<open>The acknowledgement\<close>

text \<open>
  C1. Wherever the handler hands the acknowledgement to the transporter in the trace of a
  request, the notification promise has resolved with an \<open>info\<close> object and the
  notification was handed over earlier in the trace; and the responses of the handler are
  the same whatever the outcome of the acknowledgement is.
\<close>

theorem autoReply_after_notification:
  "(\<forall>pre post.
      contactHandler e lib tr req n a
        = pre @ SendMail (autoReplyOptions e (snd (validate lib (req_body req)))) # post
      \<longrightarrow> (\<exists>info. n = Inr info)
          \<and> SendMail (mailOptions e (snd (validate lib (req_body req)))) \<in> set pre)
   \<and> responses (contactHandler e lib tr req n a) = responses (contactHandler e lib tr req n a')"
proof (intro conjI allI impI)
  show "responses (contactHandler e lib tr req n a) = responses (contactHandler e lib tr req n a')"
    by (rule responses_contactHandler_autoReply)
next
  fix pre post
  assume tr: "contactHandler e lib tr req n a
        = pre @ SendMail (autoReplyOptions e (snd (validate lib (req_body req)))) # post"
  let ?b = "snd (validate lib (req_body req))"
  have neq: "mailOptions e ?b \<noteq> autoReplyOptions e ?b"
    by (rule mailOptions_not_autoReply)
  from tr neq show "\<exists>info. n = Inr info"
    by (auto simp add: contactHandler_cases Let_def Cons_eq_append_conv
          split: if_splits option.splits sum.splits)
  from tr neq show "SendMail (mailOptions e ?b) \<in> set pre"
    by (auto simp add: contactHandler_cases Let_def Cons_eq_append_conv
          split: if_splits option.splits sum.splits)
qed

theorem autoReply_after_notification_witness:
  "contactHandler configured plainLib (createTransporter configured) joRequest
     (Inr \<lparr>info_messageId = ''<1@x>''\<rparr>) (Inl \<lparr>err_code = None, err_message = ''boom''\<rparr>)
   = [SendMail (mailOptions configured (snd (validate plainLib (req_body joRequest)))),
      Console ''Email sent successfully: <1@x>'']
     @ SendMail (autoReplyOptions configured (snd (validate plainLib (req_body joRequest))))
     # [Respond \<lparr>status = 200, success = True, error = None, code = None,
           message_text = Some ''Your message has been sent successfully! I will get back to you soon.'',
           messageId = Some ''<1@x>'', details = []\<rparr>,
        Console ''Failed to send auto-reply: boom'']
   \<and> SendMail (mailOptions configured (snd (validate plainLib (req_body joRequest))))
       \<in> set [SendMail (mailOptions configured (snd (validate plainLib (req_body joRequest)))),
              Console ''Email sent successfully: <1@x>'']
   \<and> responses (contactHandler configured plainLib (createTransporter configured) joRequest
         (Inr \<lparr>info_messageId = ''<1@x>''\<rparr>) (Inl \<lparr>err_code = None, err_message = ''boom''\<rparr>))
     = responses (contactHandler configured plainLib (createTransporter configured) joRequest
         (Inr \<lparr>info_messageId = ''<1@x>''\<rparr>) (Inr \<lparr>info_messageId = ''<2@x>''\<rparr>))"
proof -
  note inst = autoReply_after_notification [of configured plainLib "createTransporter configured"
      joRequest "Inr \<lparr>info_messageId = ''<1@x>''\<rparr>"
      "Inl \<lparr>err_code = None, err_message = ''boom''\<rparr>" "Inr \<lparr>info_messageId = ''<2@x>''\<rparr>"]
  from inst [THEN conjunct1, rule_format, OF jo_trace] inst [THEN conjunct2] jo_trace
  show ?thesis by blast
qed

subsection \<open>A successful submission\<close>

text \<open>
  C7. A request that has passed the limiter and so reaches the handler, whose body passes
  the validation chains, on a server with a transporter, whose sanitized message holds no
  spam keyword, and whose notification resolves with a non-empty message identifier, is
  answered once, with status 200, \<open>success: true\<close> and that identifier; the transporter
  receives exactly two messages, the notification and then the acknowledgement.
\<close>

theorem contact_success:
  assumes "fst (validate lib (req_body req)) = []"
    and "tr \<noteq> None"
    and "body_message (snd (validate lib (req_body req))) = Some m"
    and "\<not> containsSpam m"
    and "info_messageId info \<noteq> []"
  shows "\<exists>r. responses (contactHandler e lib tr req (Inr info) a) = [r]
           \<and> status r = 200 \<and> success r
           \<and> messageId r = Some (info_messageId info) \<and> messageId r \<noteq> Some []
           \<and> sends (contactHandler e lib tr req (Inr info) a)
               = [mailOptions e (snd (validate lib (req_body req))),
                  autoReplyOptions e (snd (validate lib (req_body req)))]"
  using assms
  by (auto simp add: contactHandler_cases Let_def split: sum.splits)

theorem contact_success_witness:
  "\<exists>r. responses (contactHandler configured plainLib (createTransporter configured) joRequest
            (Inr \<lparr>info_messageId = ''<1@x>''\<rparr>) (Inr \<lparr>info_messageId = ''<2@x>''\<rparr>)) = [r]
       \<and> status r = 200 \<and> success r \<and> messageId r = Some ''<1@x>''
       \<and> sends (contactHandler configured plainLib (createTransporter configured) joRequest
            (Inr \<lparr>info_messageId = ''<1@x>''\<rparr>) (Inr \<lparr>info_messageId = ''<2@x>''\<rparr>))
          = [mailOptions configured (snd (validate plainLib (req_body joRequest))),
             autoReplyOptions configured (snd (validate plainLib (req_body joRequest)))]"
proof -
  have valid: "fst (validate plainLib (req_body joRequest)) = []"
    by (simp add: jo_validate)
  have msg: "body_message (snd (validate plainLib (req_body joRequest))) = Some ''1234567890''"
    by (simp add: jo_validate)
  have ident: "info_messageId \<lparr>info_messageId = ''<1@x>''\<rparr> \<noteq> []"
    by simp
  from contact_success [OF valid configured_transporter msg jo_no_spam ident,
      of configured "Inr \<lparr>info_messageId = ''<2@x>''\<rparr>"]
  show ?thesis by auto
qed

section \<open>Properties of the contact route\<close>

subsection \<open>The window of the rate limiter\<close>

text \<open>
  What a limiter does whose \<open>skip\<close> option is absent: from the request that opens a
  window, as many requests as the cap are allowed, and the count of the address is the
  number of its requests in the window.
\<close>

lemma increment_fresh:
  "store key = None \<or> (\<exists>w. store key = Some w \<and> window_start w + windowMs opts < now) \<Longrightarrow>
   increment opts store key now = \<lparr>hits = 1, window_start = now\<rparr>"
  by (auto simp add: increment_def)

lemma increment_within:
  "store key = Some w \<Longrightarrow> now \<le> window_start w + windowMs opts \<Longrightarrow>
   increment opts store key now = w\<lparr>hits := hits w + 1\<rparr>"
  by (simp add: increment_def)

lemma rateLimit_fresh:
  "store key = None \<or> (\<exists>w. store key = Some w \<and> window_start w + windowMs opts < now) \<Longrightarrow>
   rateLimit opts store key now =
     (if max_hits opts < 1 then Deny else Allow, store(key \<mapsto> \<lparr>hits = 1, window_start = now\<rparr>))"
  by (simp add: rateLimit_def increment_fresh)

lemma rateLimit_within:
  "store key = Some w \<Longrightarrow> now \<le> window_start w + windowMs opts \<Longrightarrow>
   rateLimit opts store key now =
     (if max_hits opts < int (hits w) + 1 then Deny else Allow,
      store(key \<mapsto> w\<lparr>hits := hits w + 1\<rparr>))"
  by (simp add: rateLimit_def increment_within)

lemma rateLimitAll_allowed:
  "store key = Some w \<Longrightarrow> \<forall>t \<in> set ts. t \<le> window_start w + windowMs opts \<Longrightarrow>
   int (hits w + length ts) \<le> max_hits opts \<Longrightarrow>
   fst (rateLimitAll opts store key ts) = replicate (length ts) Allow
   \<and> snd (rateLimitAll opts store key ts) key = Some (w\<lparr>hits := hits w + length ts\<rparr>)"
proof (induction ts arbitrary: store w)
  case Nil
  then show ?case by simp
next
  case (Cons t ts)
  let ?w = "w\<lparr>hits := hits w + 1\<rparr>"
  let ?store = "store(key \<mapsto> ?w)"
  from Cons.prems have step: "rateLimit opts store key t = (Allow, ?store)"
    by (simp add: rateLimit_within)
  have "?store key = Some ?w" by simp
  moreover from Cons.prems have "\<forall>u \<in> set ts. u \<le> window_start ?w + windowMs opts" by simp
  moreover from Cons.prems have "int (hits ?w + length ts) \<le> max_hits opts" by simp
  ultimately have "fst (rateLimitAll opts ?store key ts) = replicate (length ts) Allow
      \<and> snd (rateLimitAll opts ?store key ts) key = Some (?w\<lparr>hits := hits ?w + length ts\<rparr>)"
    by (rule Cons.IH)
  with step show ?case
    by (simp add: split_beta)
qed

lemma rateLimitAll_window:
  assumes fresh: "store key = None \<or> (\<exists>w. store key = Some w \<and> window_start w + windowMs opts < t0)"
    and within: "\<forall>t \<in> set ts. t \<le> t0 + windowMs opts"
    and cap: "int (Suc (length ts)) \<le> max_hits opts"
  shows "fst (rateLimitAll opts store key (t0 # ts)) = replicate (Suc (length ts)) Allow"
    and "snd (rateLimitAll opts store key (t0 # ts)) key
           = Some \<lparr>hits = Suc (length ts), window_start = t0\<rparr>"
proof -
  let ?w = "\<lparr>hits = 1, window_start = t0\<rparr>"
  let ?store = "store(key \<mapsto> ?w)"
  from cap have "\<not> max_hits opts < 1" by simp
  with fresh have step: "rateLimit opts store key t0 = (Allow, ?store)"
    by (simp add: rateLimit_fresh)
  have "?store key = Some ?w" by simp
  moreover from within have "\<forall>t \<in> set ts. t \<le> window_start ?w + windowMs opts" by simp
  moreover from cap have "int (hits ?w + length ts) \<le> max_hits opts" by simp
  ultimately have rest: "fst (rateLimitAll opts ?store key ts) = replicate (length ts) Allow
      \<and> snd (rateLimitAll opts ?store key ts) key = Some (?w\<lparr>hits := hits ?w + length ts\<rparr>)"
    by (rule rateLimitAll_allowed)
  from step rest show "fst (rateLimitAll opts store key (t0 # ts)) = replicate (Suc (length ts)) Allow"
    by (simp add: split_beta)
  from step rest show "snd (rateLimitAll opts store key (t0 # ts)) key
           = Some \<lparr>hits = Suc (length ts), window_start = t0\<rparr>"
    by (simp add: split_beta)
qed

lemma limiterMiddleware_counts:
  "skip opts = SkipAbsent \<Longrightarrow>
   limiterMiddleware opts store key now =
     (if fst (rateLimit opts store key now) = Deny then Limited else Passed,
      snd (rateLimit opts store key now))"
  by (cases "rateLimit opts store key now")
     (simp add: limiterMiddleware_def split: decision.splits)

subsection \<open>The limiter of the contact route\<close>

lemma contactLimiter_throws:
  "limiterMiddleware (contactLimiter e) store key now =
     (Threw \<lparr>error_message = ''config.skip is not a function'', error_status = None\<rparr>, store)"
  by (simp add: limiterMiddleware_def contactLimiter_def)

lemma errorHandler_TypeError:
  "errorHandler \<lparr>error_message = ''config.skip is not a function'', error_status = None\<rparr>
   = [Console ''Server error: config.skip is not a function'',
      Respond (failure 500 ''An unexpected error occurred'' ''INTERNAL_ERROR'')]"
  by (simp add: errorHandler_def)

lemma contactRoute_throws:
  "contactRoute e lib tr store now req n a =
     ([Console ''Server error: config.skip is not a function'',
       Respond (failure 500 ''An unexpected error occurred'' ''INTERNAL_ERROR'')], store)"
  by (simp only: contactRoute_def contactLimiter_throws limiter_outcome.case prod.case
        errorHandler_TypeError)

text \<open>
  C3. The claim: the contact limiter allows five requests of an address in a window of 15
  minutes, answers the sixth with status 429 and the code \<open>RATE_LIMIT_EXCEEDED\<close>, and
  allows a request after the window with the count set to 1. The source passes the
  boolean \<open>false\<close> as the \<open>skip\<close> option of the contact limiter, which the middleware
  calls as a function: every request of the contact route, whatever the address, the
  time and the earlier requests, ends in the global error handler with status 500 and the
  code \<open>INTERNAL_ERROR\<close>. No request is allowed, none is answered with 429, and no count is
  kept.
\<close>

theorem contactRouteAll_internal_error:
  "contactRouteAll e lib tr store req ts n a
   = (replicate (length ts) (failure 500 ''An unexpected error occurred'' ''INTERNAL_ERROR''),
      store)"
  by (induction ts) (simp_all add: contactRoute_throws)

subsection \<open>Availability of the mail service\<close>




end
